theory Spec2Isabelle
  imports Main "HOL-Library.Sublist"
begin

section \<open>Strings and numbers of the source language\<close>

text \<open>
  A string of the source is a sequence of UTF-16 code units; a code unit is modelled as a
  natural number below 65536. ASCII literals are written through \<open>str\<close>; the Chinese
  phrases of the tables are written by their code units.
\<close>

type_synonym jsstring = "nat list"

definition str :: "string \<Rightarrow> jsstring" where
  "str s = map of_char s"

text \<open>
  A number of the source is a double. \<open>Num n\<close> stands for the double whose value is the
  integer \<open>n\<close> (the two zeros are not told apart), and \<open>NaN\<close> for not-a-number; fractions
  and infinities have no representation here. Comparisons of doubles are exact.
\<close>

datatype jsnum = Num int | NaN

text \<open>
  The result of a built-in operation of the language is tracked only where it is pinned
  down here. \<open>Untracked\<close> says that the source computes a value which this model does not
  follow; it says nothing about that value and is not an error of the source.
\<close>

datatype 'a tracked = Tracked 'a | Untracked

fun andThen :: "'a tracked \<Rightarrow> ('a \<Rightarrow> 'b tracked) \<Rightarrow> 'b tracked" where
  "andThen (Tracked x) f = f x"
| "andThen Untracked f = Untracked"

text \<open>
  Rounding an integer to a double: to 53 significant bits, to the nearest, a tie to the
  even significand. \<open>bitLength n\<close> is the number of bits of \<open>n\<close>. An integer of at most 53
  bits is kept.
\<close>

fun bitLength :: "nat \<Rightarrow> nat" where
  "bitLength n = (if n = 0 then 0 else Suc (bitLength (n div 2)))"

declare bitLength.simps [simp del]

definition roundMagnitude :: "nat \<Rightarrow> nat" where
  "roundMagnitude n =
     (let k = bitLength n - 53; q = n div 2 ^ k; r = n mod 2 ^ k in
      if 2 * r > 2 ^ k \<or> (2 * r = 2 ^ k \<and> odd q) then (q + 1) * 2 ^ k else q * 2 ^ k)"

definition roundDouble :: "int \<Rightarrow> int" where
  "roundDouble x =
     (if x < 0 then - int (roundMagnitude (nat (- x))) else int (roundMagnitude (nat x)))"

text \<open>
  An integer is the value of a double when rounding keeps it and its magnitude is below
  \<open>2 ^ 1024\<close>. A rounded result of magnitude \<open>2 ^ 1024\<close> or more is an infinity in the
  source and is not followed.
\<close>

definition doubleLimit :: int where
  "doubleLimit = 2 ^ 1024"

definition isDouble :: "int \<Rightarrow> bool" where
  "isDouble a \<longleftrightarrow> roundDouble a = a \<and> \<bar>a\<bar> < doubleLimit"

definition toDouble :: "int \<Rightarrow> jsnum tracked" where
  "toDouble x =
     (let v = roundDouble x in if \<bar>v\<bar> < doubleLimit then Tracked (Num v) else Untracked)"

text \<open>
  \<open>a * b\<close> and \<open>a + b\<close>: \<open>NaN\<close> if an operand is \<open>NaN\<close>; otherwise the exact product or
  sum of the two integers, rounded to a double.
\<close>

fun jsmul :: "jsnum \<Rightarrow> jsnum \<Rightarrow> jsnum tracked" where
  "jsmul (Num a) (Num b) = (if isDouble a \<and> isDouble b then toDouble (a * b) else Untracked)"
| "jsmul _ _ = Tracked NaN"

fun jsadd :: "jsnum \<Rightarrow> jsnum \<Rightarrow> jsnum tracked" where
  "jsadd (Num a) (Num b) = (if isDouble a \<and> isDouble b then toDouble (a + b) else Untracked)"
| "jsadd _ _ = Tracked NaN"

text \<open>The integers of magnitude at most \<open>2 ^ 53\<close>.\<close>

definition safeInteger :: "int \<Rightarrow> bool" where
  "safeInteger n \<longleftrightarrow> - 9007199254740992 \<le> n \<and> n \<le> 9007199254740992"

text \<open>\<open>a >= b\<close> and \<open>a > b\<close>: every comparison with \<open>NaN\<close> is false.\<close>

fun jsge :: "jsnum \<Rightarrow> jsnum \<Rightarrow> bool" where
  "jsge (Num a) (Num b) = (b \<le> a)"
| "jsge _ _ = False"

fun jsgt :: "jsnum \<Rightarrow> jsnum \<Rightarrow> bool" where
  "jsgt (Num a) (Num b) = (b < a)"
| "jsgt _ _ = False"

text \<open>Truthiness of a number: \<open>0\<close> and \<open>NaN\<close> are falsy.\<close>

fun truthy :: "jsnum \<Rightarrow> bool" where
  "truthy (Num a) = (a \<noteq> 0)"
| "truthy NaN = False"

section \<open>The recipe store (store/recipeStore)\<close>

text \<open>
  The recipe document. Of \<open>RecipeStep\<close> the fields the playback engine reads are kept;
  \<open>visual_verification\<close> (a status, a fractional confidence and two texts) and the
  recipe's meta data, ingredients and cost estimate are display data and are left out.
\<close>

record TimerConfig =
  has_timer :: bool
  duration_seconds :: "int option"
  visual_cue :: "jsstring option"

record RecipeStep =
  step_id :: int
  timestamp_start :: jsstring
  timestamp_end :: jsstring
  instruction_en :: jsstring
  instruction_hk :: jsstring
  timer_config :: TimerConfig

record Recipe =
  youtube_id :: jsstring
  steps :: "RecipeStep list"

datatype Language = en | hk

datatype Mode = ingredients | prep | cook

record RecipeState =
  currentRecipe :: "Recipe option"
  isLoading :: bool
  error :: "jsstring option"
  currentStepIndex :: int
  mode :: Mode
  isTimerRunning :: bool
  timerSeconds :: int
  showExplainability :: bool
  isListening :: bool
  expertMode :: bool
  language :: Language

text \<open>The initial state of the store; the language comes from the browser.\<close>

definition initialState :: "Language \<Rightarrow> RecipeState" where
  "initialState lang =
     \<lparr> currentRecipe = None, isLoading = False, error = None, currentStepIndex = 0,
       mode = ingredients, isTimerRunning = False, timerSeconds = 0,
       showExplainability = False, isListening = False, expertMode = False,
       language = lang \<rparr>"

text \<open>
  Each action merges a partial state into the store (\<open>set\<close>), which is a record update
  of exactly the fields it names.
\<close>

definition setRecipe :: "Recipe \<Rightarrow> RecipeState \<Rightarrow> RecipeState" where
  "setRecipe recipe s = s\<lparr>currentRecipe := Some recipe, currentStepIndex := 0, error := None\<rparr>"

definition clearRecipe :: "RecipeState \<Rightarrow> RecipeState" where
  "clearRecipe s = s\<lparr>currentRecipe := None, currentStepIndex := 0\<rparr>"

definition setMode :: "Mode \<Rightarrow> RecipeState \<Rightarrow> RecipeState" where
  "setMode m s = s\<lparr>mode := m\<rparr>"

definition nextStep :: "RecipeState \<Rightarrow> RecipeState" where
  "nextStep s =
     (case currentRecipe s of
        None \<Rightarrow> s
      | Some r \<Rightarrow>
          if currentStepIndex s < int (length (steps r)) - 1
          then s\<lparr>currentStepIndex := currentStepIndex s + 1\<rparr>
          else s)"

definition prevStep :: "RecipeState \<Rightarrow> RecipeState" where
  "prevStep s =
     (if currentStepIndex s > 0 then s\<lparr>currentStepIndex := currentStepIndex s - 1\<rparr> else s)"

definition goToStep :: "int \<Rightarrow> RecipeState \<Rightarrow> RecipeState" where
  "goToStep index s =
     (case currentRecipe s of
        None \<Rightarrow> s
      | Some r \<Rightarrow>
          if index \<ge> 0 \<and> index < int (length (steps r))
          then s\<lparr>currentStepIndex := index\<rparr>
          else s)"

definition startTimer :: "int \<Rightarrow> RecipeState \<Rightarrow> RecipeState" where
  "startTimer seconds s = s\<lparr>timerSeconds := seconds, isTimerRunning := True\<rparr>"

definition stopTimer :: "RecipeState \<Rightarrow> RecipeState" where
  "stopTimer s = s\<lparr>isTimerRunning := False\<rparr>"

definition toggleExplainability :: "RecipeState \<Rightarrow> RecipeState" where
  "toggleExplainability s = s\<lparr>showExplainability := \<not> showExplainability s\<rparr>"

definition setListening :: "bool \<Rightarrow> RecipeState \<Rightarrow> RecipeState" where
  "setListening listening s = s\<lparr>isListening := listening\<rparr>"

definition toggleExpertMode :: "RecipeState \<Rightarrow> RecipeState" where
  "toggleExpertMode s = s\<lparr>expertMode := \<not> expertMode s\<rparr>"

definition setLanguage :: "Language \<Rightarrow> RecipeState \<Rightarrow> RecipeState" where
  "setLanguage lang s = s\<lparr>language := lang\<rparr>"

text \<open>
  What the browser's speech synthesis is asked to say: the text and the language tag of
  each utterance, in the order of the calls to \<open>speak\<close>.
\<close>

record Utterance =
  utterance_text :: jsstring
  utterance_lang :: jsstring

text \<open>The text of the notification of \<open>tickTimer\<close>, five code units.\<close>

definition timeUpText :: jsstring where
  "timeUpText = [0x6642, 0x9593, 0x5230, 0x5566, 0xFF01]"

definition timeUpUtterance :: Utterance where
  "timeUpUtterance = \<lparr> utterance_text = timeUpText, utterance_lang = str ''zh-HK'' \<rparr>"

text \<open>
  The store together with the utterances spoken so far. \<open>speechAvailable\<close> is the test
  \<open>'speechSynthesis' in window\<close>.
\<close>

record World =
  store :: RecipeState
  spoken :: "Utterance list"
  speechAvailable :: bool

definition speak :: "Utterance \<Rightarrow> World \<Rightarrow> World" where
  "speak u w = (if speechAvailable w then w\<lparr>spoken := spoken w @ [u]\<rparr> else w)"

definition tickTimer :: "World \<Rightarrow> World" where
  "tickTimer w =
     (let s = store w in
      if isTimerRunning s \<and> timerSeconds s > 0
      then w\<lparr>store := s\<lparr>timerSeconds := timerSeconds s - 1\<rparr>\<rparr>
      else if isTimerRunning s \<and> timerSeconds s = 0
      then speak timeUpUtterance (w\<lparr>store := s\<lparr>isTimerRunning := False\<rparr>\<rparr>)
      else w)"

text \<open>
  The timer effect of CookMode calls \<open>tickTimer\<close> once a second from an interval that
  exists only while \<open>isTimerRunning\<close> holds. \<open>ticks n\<close> is \<open>n\<close> successive calls of
  \<open>tickTimer\<close>.
\<close>

fun ticks :: "nat \<Rightarrow> World \<Rightarrow> World" where
  "ticks 0 w = w"
| "ticks (Suc n) w = ticks n (tickTimer w)"

text \<open>Sequences of navigation calls.\<close>

datatype NavCall = CallNext | CallPrev

fun navCall :: "NavCall \<Rightarrow> RecipeState \<Rightarrow> RecipeState" where
  "navCall CallNext s = nextStep s"
| "navCall CallPrev s = prevStep s"

fun navCalls :: "NavCall list \<Rightarrow> RecipeState \<Rightarrow> RecipeState" where
  "navCalls [] s = s"
| "navCalls (c # cs) s = navCalls cs (navCall c s)"

text \<open>
  The world right after \<open>startTimer d\<close> on the store \<open>s\<close>, with speech synthesis present
  and nothing spoken yet.
\<close>

definition timerWorld :: "nat \<Rightarrow> RecipeState \<Rightarrow> World" where
  "timerWorld d s = \<lparr> store = startTimer (int d) s, spoken = [], speechAvailable = True \<rparr>"

text \<open>A recipe of three steps, for the concrete runs below.\<close>

definition demoStep :: "int \<Rightarrow> jsstring \<Rightarrow> jsstring \<Rightarrow> int option \<Rightarrow> RecipeStep" where
  "demoStep i start end d =
     \<lparr> step_id = i, timestamp_start = start, timestamp_end = end,
       instruction_en = str ''Stir'', instruction_hk = [0x7092],
       timer_config = \<lparr> has_timer = True, duration_seconds = d, visual_cue = None \<rparr> \<rparr>"

definition demoRecipe :: Recipe where
  "demoRecipe =
     \<lparr> youtube_id = str ''abc'',
       steps = [demoStep 1 (str ''00:10'') (str ''00:20'') (Some 90),
                demoStep 2 (str ''00:20'') (str ''01:05'') None,
                demoStep 3 (str ''01:05'') (str ''1:02:03'') (Some 0)] \<rparr>"

definition demoState :: RecipeState where
  "demoState = setRecipe demoRecipe (initialState en)"

section \<open>String operations\<close>

text \<open>
  \<open>toLowerCase\<close> is a built-in whose case mapping covers all of Unicode. It is not
  defined here: the functions that call it take it as their argument \<open>lower\<close>. What is
  known of it is stated where it is needed: a string made only of ASCII code units and of
  CJK unified ideographs (\<open>isPlain\<close>) is mapped unit by unit, \<open>A\<close> to \<open>Z\<close> to \<open>a\<close> to \<open>z\<close>
  and every other unit to itself (\<open>lowerUnit\<close>).
\<close>

definition lowerUnit :: "nat \<Rightarrow> nat" where
  "lowerUnit c = (if 0x41 \<le> c \<and> c \<le> 0x5A then c + 0x20 else c)"

definition isPlain :: "nat \<Rightarrow> bool" where
  "isPlain c \<longleftrightarrow> c < 0x80 \<or> (0x4E00 \<le> c \<and> c \<le> 0x9FFF)"

text \<open>The white space and line terminator code units that \<open>trim\<close> removes at both ends.\<close>

definition isWhiteSpace :: "nat \<Rightarrow> bool" where
  "isWhiteSpace c \<longleftrightarrow>
     c \<in> set [0x09, 0x0A, 0x0B, 0x0C, 0x0D, 0x20, 0xA0, 0x1680, 0x2028, 0x2029, 0x202F,
               0x205F, 0x3000, 0xFEFF]
     \<or> (0x2000 \<le> c \<and> c \<le> 0x200A)"

definition trim :: "jsstring \<Rightarrow> jsstring" where
  "trim s = rev (dropWhile isWhiteSpace (rev (dropWhile isWhiteSpace s)))"

text \<open>
  \<open>s.split(sep)\<close> for a separator of one code unit: the pieces between the separators, one
  more piece than there are separators.
\<close>

fun splitOn :: "nat \<Rightarrow> jsstring \<Rightarrow> jsstring list" where
  "splitOn sep [] = [[]]"
| "splitOn sep (c # cs) =
     (if c = sep then [] # splitOn sep cs
      else (case splitOn sep cs of
              [] \<Rightarrow> [[c]]
            | p # ps \<Rightarrow> (c # p) # ps))"

definition colon :: nat where
  "colon = 0x3A"

text \<open>
  \<open>Number(s)\<close>, followed on what a well-formed timestamp field holds: surrounding white
  space is dropped; the empty string is \<open>0\<close>; a string of decimal digits whose value is at
  most \<open>2 ^ 53\<close> is that value. On every other string (signed, fractional, exponent and
  radix-prefixed literals, longer digit strings, text that is not a number) the result of
  the source is not followed.
\<close>

definition isDigit :: "nat \<Rightarrow> bool" where
  "isDigit c \<longleftrightarrow> 0x30 \<le> c \<and> c \<le> 0x39"

definition digitsValue :: "jsstring \<Rightarrow> nat" where
  "digitsValue s = foldl (\<lambda>acc c. 10 * acc + (c - 0x30)) 0 s"

definition Number :: "jsstring \<Rightarrow> jsnum tracked" where
  "Number s =
     (let t = trim s in
      if t = [] then Tracked (Num 0)
      else if list_all isDigit t \<and> safeInteger (int (digitsValue t))
      then Tracked (Num (int (digitsValue t)))
      else Untracked)"

section \<open>The command interpreter (constants/i18n, components/VoiceControl)\<close>

datatype Command = Next | Prev | Repeat | Timer | Stop

text \<open>
  \<open>COMMAND_PATTERNS\<close>, in the order \<open>Object.entries\<close> enumerates it: the keys \<open>next\<close>,
  \<open>prev\<close>, \<open>repeat\<close>, \<open>timer\<close>, \<open>stop\<close>, each with its phrases in array order.
\<close>

definition COMMAND_PATTERNS :: "(Command \<times> jsstring list) list" where
  "COMMAND_PATTERNS =
     [(Next, [[0x4E0B, 0x4E00, 0x6B65], [0x4E0B, 0x4E00, 0x4E2A], [0x7E7C, 0x7E8C],
              [0x7EE7, 0x7EED], str ''next'', str ''continue'']),
      (Prev, [[0x4E0A, 0x4E00, 0x6B65], [0x8FD4, 0x56DE], [0x524D, 0x4E00, 0x6B65],
              str ''previous'', str ''back'']),
      (Repeat, [[0x91CD, 0x8907], [0x91CD, 0x590D], [0x518D, 0x8B1B], [0x518D, 0x8BF4],
                str ''repeat'', str ''again'']),
      (Timer, [[0x8A08, 0x6642], [0x8BA1, 0x65F6], [0x958B, 0x59CB, 0x8A08, 0x6642],
               str ''timer'', str ''start timer'']),
      (Stop, [[0x505C, 0x6B62], [0x66AB, 0x505C], [0x505C], str ''stop'', str ''pause''])]"

text \<open>
  \<open>matchCommand\<close>: the transcript is lowercased and trimmed; the outer loop runs over the
  entries of the table and the inner loop over the patterns of an entry; the first
  lowercased pattern that the normalized transcript includes returns its command.
  \<open>s.includes(p)\<close> holds when \<open>p\<close> occurs in \<open>s\<close> as a contiguous run of code units, which
  is \<open>sublist p s\<close>. The first argument is the built-in \<open>toLowerCase\<close>.
\<close>

definition normalized :: "(jsstring \<Rightarrow> jsstring) \<Rightarrow> jsstring \<Rightarrow> jsstring" where
  "normalized lower transcript = trim (lower transcript)"

fun matchPatterns ::
  "(jsstring \<Rightarrow> jsstring) \<Rightarrow> jsstring \<Rightarrow> Command \<Rightarrow> jsstring list \<Rightarrow> Command option" where
  "matchPatterns lower norm command [] = None"
| "matchPatterns lower norm command (pattern # patterns) =
     (if sublist (lower pattern) norm then Some command
      else matchPatterns lower norm command patterns)"

fun matchEntries ::
  "(jsstring \<Rightarrow> jsstring) \<Rightarrow> jsstring \<Rightarrow> (Command \<times> jsstring list) list \<Rightarrow> Command option" where
  "matchEntries lower norm [] = None"
| "matchEntries lower norm ((command, patterns) # entries) =
     (case matchPatterns lower norm command patterns of
        Some c \<Rightarrow> Some c
      | None \<Rightarrow> matchEntries lower norm entries)"

definition matchCommand :: "(jsstring \<Rightarrow> jsstring) \<Rightarrow> jsstring \<Rightarrow> Command option" where
  "matchCommand lower transcript =
     matchEntries lower (normalized lower transcript) COMMAND_PATTERNS"

text \<open>
  The interpreter in the words of the specification: normalize the text (lowercase, trim),
  then return the first command of the table, in table order, one of whose phrases occurs
  in the text without regard to case; none if there is no such command.
\<close>

definition interpret_spec ::
  "(jsstring \<Rightarrow> jsstring) \<Rightarrow> (Command \<times> jsstring list) list \<Rightarrow> jsstring \<Rightarrow> Command option" where
  "interpret_spec lower table t =
     map_option fst
       (find (\<lambda>entry. list_ex (\<lambda>phrase. sublist (lower phrase) (trim (lower t))) (snd entry))
             table)"

text \<open>The phrase table of the specification's example.\<close>

definition specTable :: "(Command \<times> jsstring list) list" where
  "specTable = [(Next, [str ''next'', [0x4E0B, 0x4E00, 0x6B65]]), (Prev, [str ''back''])]"

text \<open>
  \<open>MESSAGES[language][command]\<close> for the five commands, each a string.
\<close>

fun feedbackText :: "Language \<Rightarrow> Command \<Rightarrow> jsstring" where
  "feedbackText en Next = str ''Next''"
| "feedbackText en Prev = str ''Previous''"
| "feedbackText en Repeat = str ''Repeat''"
| "feedbackText en Timer = str ''Timer''"
| "feedbackText en Stop = str ''Stop''"
| "feedbackText hk Next = [0x4E0B, 0x4E00, 0x6B65]"
| "feedbackText hk Prev = [0x4E0A, 0x4E00, 0x6B65]"
| "feedbackText hk Repeat = [0x91CD, 0x8907]"
| "feedbackText hk Timer = [0x8A08, 0x6642]"
| "feedbackText hk Stop = [0x505C, 0x6B62]"

text \<open>
  \<open>speakFeedback\<close>; the utterance's rate, a constant fraction, is not recorded.
\<close>

definition speakFeedback :: "Language \<Rightarrow> jsstring \<Rightarrow> World \<Rightarrow> World" where
  "speakFeedback l t w =
     speak \<lparr> utterance_text = t,
             utterance_lang = (if l = hk then str ''zh-HK'' else str ''en-US'') \<rparr> w"

text \<open>
  \<open>handleCommand\<close>. The component's optional \<open>onCommand\<close> callback may do anything to the
  world; CookMode renders the component without one.
\<close>

definition handleCommand :: "(Command \<Rightarrow> World \<Rightarrow> World) option \<Rightarrow> Command \<Rightarrow> World \<Rightarrow> World" where
  "handleCommand onCommand command w =
     (let l = language (store w);
          feedback = feedbackText l command;
          w1 = (case command of
                  Next \<Rightarrow> speakFeedback l feedback (w\<lparr>store := nextStep (store w)\<rparr>)
                | Prev \<Rightarrow> speakFeedback l feedback (w\<lparr>store := prevStep (store w)\<rparr>)
                | Repeat \<Rightarrow> speakFeedback l feedback w
                | Timer \<Rightarrow> speakFeedback l feedback w
                | Stop \<Rightarrow> speakFeedback l feedback w)
      in case onCommand of None \<Rightarrow> w1 | Some f \<Rightarrow> f command w1)"

section \<open>The timer buttons of CookMode\<close>

text \<open>
  \<open>currentRecipe.steps[currentStepIndex]\<close>, which is undefined out of range.
\<close>

definition currentStep :: "RecipeState \<Rightarrow> RecipeStep option" where
  "currentStep s =
     (case currentRecipe s of
        None \<Rightarrow> None
      | Some r \<Rightarrow>
          if 0 \<le> currentStepIndex s \<and> currentStepIndex s < int (length (steps r))
          then Some (steps r ! nat (currentStepIndex s))
          else None)"

text \<open>\<open>duration_seconds || 60\<close>: null and \<open>0\<close> give \<open>60\<close>.\<close>

definition durationOrDefault :: "int option \<Rightarrow> int" where
  "durationOrDefault d = (case d of None \<Rightarrow> 60 | Some n \<Rightarrow> if n = 0 then 60 else n)"

text \<open>
  The timer card is rendered when the current step has a timer; it shows the start button
  while the timer is not running and the stop button while it is.
\<close>

definition clickStartTimer :: "RecipeState \<Rightarrow> RecipeState" where
  "clickStartTimer s =
     (case currentStep s of
        None \<Rightarrow> s
      | Some step \<Rightarrow>
          if has_timer (timer_config step) \<and> \<not> isTimerRunning s
          then startTimer (durationOrDefault (duration_seconds (timer_config step))) s
          else s)"

definition clickStopTimer :: "RecipeState \<Rightarrow> RecipeState" where
  "clickStopTimer s =
     (case currentStep s of
        None \<Rightarrow> s
      | Some step \<Rightarrow>
          if has_timer (timer_config step) \<and> isTimerRunning s then stopTimer s else s)"

section \<open>The video loop controller (components/YouTubePlayer)\<close>

definition parseTimestamp :: "jsstring \<Rightarrow> jsnum tracked" where
  "parseTimestamp timestamp =
     (let parts = map Number (splitOn colon timestamp) in
      if length parts = 2 then
        andThen (parts ! 0) (\<lambda>p0. andThen (parts ! 1) (\<lambda>p1.
        andThen (jsmul p0 (Num 60)) (\<lambda>m. jsadd m p1)))
      else if length parts = 3 then
        andThen (parts ! 0) (\<lambda>p0. andThen (parts ! 1) (\<lambda>p1. andThen (parts ! 2) (\<lambda>p2.
        andThen (jsmul p0 (Num 3600)) (\<lambda>h. andThen (jsmul p1 (Num 60)) (\<lambda>m.
        andThen (jsadd h m) (\<lambda>hm. jsadd hm p2))))))
      else Tracked (Num 0))"

text \<open>
  \<open>startSeconds\<close> and \<open>endSeconds\<close>: \<open>t ? parseTimestamp(t) : 0\<close> for an optional string
  \<open>t\<close>; an absent and an empty string are falsy.
\<close>

definition secondsOf :: "jsstring option \<Rightarrow> jsnum tracked" where
  "secondsOf t =
     (case t of
        None \<Rightarrow> Tracked (Num 0)
      | Some ts \<Rightarrow> if ts = [] then Tracked (Num 0) else parseTimestamp ts)"

text \<open>The calls made on the player handle.\<close>

datatype PlayerCmd = SeekTo jsnum | PlayVideo

datatype PlayerState = ENDED | PLAYING | PAUSED

text \<open>
  \<open>onStateChange\<close>: the player commands it issues. \<open>hasPlayer\<close> says that the player
  reference is set; the calls go through optional chaining.
\<close>

definition onStateChange :: "bool \<Rightarrow> jsnum \<Rightarrow> bool \<Rightarrow> PlayerState \<Rightarrow> PlayerCmd list" where
  "onStateChange autoLoop startSeconds hasPlayer state =
     (if state = ENDED then
        (if autoLoop \<and> jsgt startSeconds (Num 0)
         then (if hasPlayer then [SeekTo startSeconds, PlayVideo] else [])
         else [])
      else [])"

text \<open>
  What one poll finds: no usable player, a call of \<open>getCurrentTime\<close> that throws, or the
  reported position.
\<close>

datatype Sample = Unavailable | Throws | Time jsnum

fun pollTick :: "jsnum \<Rightarrow> jsnum \<Rightarrow> Sample \<Rightarrow> PlayerCmd list" where
  "pollTick startSeconds endSeconds Unavailable = []"
| "pollTick startSeconds endSeconds Throws = []"
| "pollTick startSeconds endSeconds (Time currentTime) =
     (if jsge currentTime endSeconds then [SeekTo startSeconds] else [])"

text \<open>
  The loop monitoring effect: the player commands issued at each of the successive polls,
  one list for each poll. When the effect returns without installing the interval, no poll
  issues anything.
\<close>

definition loopMonitor :: "bool \<Rightarrow> jsnum \<Rightarrow> jsnum \<Rightarrow> bool \<Rightarrow> Sample list \<Rightarrow> PlayerCmd list list" where
  "loopMonitor autoLoop startSeconds endSeconds hasPlayer samples =
     (if \<not> autoLoop \<or> \<not> truthy endSeconds \<or> \<not> hasPlayer
      then map (\<lambda>_. []) samples
      else map (pollTick startSeconds endSeconds) samples)"

text \<open>
  A decimal field of a timestamp: the decimal digits of \<open>n\<close> after \<open>k\<close> leading zeros.
\<close>

fun decimal :: "nat \<Rightarrow> jsstring" where
  "decimal n = (if n < 10 then [0x30 + n] else decimal (n div 10) @ [0x30 + n mod 10])"

declare decimal.simps [simp del]

definition field :: "nat \<Rightarrow> nat \<Rightarrow> jsstring" where
  "field k n = replicate k 0x30 @ decimal n"

section \<open>Step navigation\<close>

lemma navCall_recipe: "currentRecipe (navCall c s) = currentRecipe s"
  by (cases c) (simp_all add: nextStep_def prevStep_def split: option.splits)

lemma navCall_bounds:
  assumes "currentRecipe s = Some r"
    and "0 \<le> currentStepIndex s" and "currentStepIndex s \<le> int (length (steps r)) - 1"
  shows "0 \<le> currentStepIndex (navCall c s) \<and>
         currentStepIndex (navCall c s) \<le> int (length (steps r)) - 1"
  using assms by (cases c) (auto simp: nextStep_def prevStep_def)

lemma navCalls_bounds:
  "currentRecipe s = Some r \<Longrightarrow> 0 \<le> currentStepIndex s \<Longrightarrow>
   currentStepIndex s \<le> int (length (steps r)) - 1 \<Longrightarrow>
   0 \<le> currentStepIndex (navCalls cs s) \<and>
   currentStepIndex (navCalls cs s) \<le> int (length (steps r)) - 1"
proof (induction cs arbitrary: s)
  case Nil
  then show ?case by simp
next
  case (Cons c cs)
  have "currentRecipe (navCall c s) = Some r"
    using Cons.prems(1) by (simp add: navCall_recipe)
  moreover have "0 \<le> currentStepIndex (navCall c s) \<and>
      currentStepIndex (navCall c s) \<le> int (length (steps r)) - 1"
    using Cons.prems by (rule navCall_bounds)
  ultimately show ?case
    using Cons.IH [of "navCall c s"] by simp
qed

text \<open>
  Claim C1. In a recipe of \<open>N \<ge> 1\<close> steps, after any finite sequence of \<open>nextStep\<close> and
  \<open>prevStep\<close> calls from \<open>currentStepIndex = 0\<close> the index lies in \<open>[0, N - 1]\<close>. Every
  prefix of a sequence is a sequence, so this holds after every call. In the state reached,
  \<open>nextStep\<close> increments when the index is below \<open>N - 1\<close> and otherwise returns the state as it
  is, and \<open>prevStep\<close> decrements when the index is above \<open>0\<close> and otherwise returns the state
  as it is. Both are total functions with no error branch, as the source has none.
\<close>

theorem navigation_stays_in_range:
  assumes "currentRecipe s = Some r" and "1 \<le> length (steps r)" and "currentStepIndex s = 0"
  shows "0 \<le> currentStepIndex (navCalls cs s) \<and>
         currentStepIndex (navCalls cs s) \<le> int (length (steps r)) - 1 \<and>
         currentRecipe (navCalls cs s) = Some r \<and>
         nextStep (navCalls cs s) =
           (if currentStepIndex (navCalls cs s) < int (length (steps r)) - 1
            then (navCalls cs s)\<lparr>currentStepIndex := currentStepIndex (navCalls cs s) + 1\<rparr>
            else navCalls cs s) \<and>
         prevStep (navCalls cs s) =
           (if currentStepIndex (navCalls cs s) > 0
            then (navCalls cs s)\<lparr>currentStepIndex := currentStepIndex (navCalls cs s) - 1\<rparr>
            else navCalls cs s)"
proof -
  have rec: "currentRecipe (navCalls cs s) = Some r"
    using assms(1) by (induction cs arbitrary: s) (simp_all add: navCall_recipe)
  have start: "currentStepIndex s \<le> int (length (steps r)) - 1"
    using assms(2,3) by linarith
  have "0 \<le> currentStepIndex (navCalls cs s) \<and>
        currentStepIndex (navCalls cs s) \<le> int (length (steps r)) - 1"
    using assms(1) _ start by (rule navCalls_bounds) (simp add: assms(3))
  then show ?thesis
    using rec by (auto simp: nextStep_def prevStep_def)
qed

theorem navigation_stays_in_range_witness:
  "currentRecipe demoState = Some demoRecipe \<and> 1 \<le> length (steps demoRecipe) \<and>
   currentStepIndex demoState = 0 \<and>
   currentStepIndex (navCalls [CallNext, CallNext] demoState) = 2 \<and>
   currentStepIndex (navCalls [CallNext, CallNext, CallNext] demoState) = 2 \<and>
   0 \<le> currentStepIndex (navCalls [CallPrev, CallNext, CallNext, CallNext, CallPrev] demoState) \<and>
   currentStepIndex (navCalls [CallPrev, CallNext, CallNext, CallNext, CallPrev] demoState) \<le> 2"
proof -
  have h1: "currentRecipe demoState = Some demoRecipe"
    by (simp add: demoState_def setRecipe_def)
  have h2: "1 \<le> length (steps demoRecipe)"
    by (simp add: demoRecipe_def)
  have h3: "currentStepIndex demoState = 0"
    by (simp add: demoState_def setRecipe_def)
  have n: "int (length (steps demoRecipe)) - 1 = 2"
    by (simp add: demoRecipe_def)
  have two: "currentStepIndex (navCalls [CallNext, CallNext] demoState) = 2"
    by (simp add: nextStep_def h1 h3 n)
  have three: "currentStepIndex (navCalls [CallNext, CallNext, CallNext] demoState) = 2"
    by (simp add: nextStep_def h1 h3 n)
  show ?thesis
    using navigation_stays_in_range [OF h1 h2 h3, of "[CallPrev, CallNext, CallNext, CallNext, CallPrev]"]
      h1 h2 h3 n two three by simp
qed

text \<open>
  Claim C8. With a recipe of \<open>N\<close> steps loaded, \<open>goToStep index\<close> returns the whole state
  unchanged when \<open>index\<close> is negative or at least \<open>N\<close>, and sets \<open>currentStepIndex\<close> to
  \<open>index\<close>, changing nothing else, when \<open>0 \<le> index < N\<close>.
\<close>

theorem goToStep_out_of_range_noop:
  assumes "currentRecipe s = Some r"
  shows "(index < 0 \<or> index \<ge> int (length (steps r)) \<longrightarrow> goToStep index s = s) \<and>
         (0 \<le> index \<and> index < int (length (steps r)) \<longrightarrow>
            goToStep index s = s\<lparr>currentStepIndex := index\<rparr> \<and>
            currentStepIndex (goToStep index s) = index)"
  using assms by (simp add: goToStep_def)

theorem goToStep_out_of_range_noop_witness:
  "currentRecipe demoState = Some demoRecipe \<and>
   goToStep 3 demoState = demoState \<and> goToStep (- 1) demoState = demoState \<and>
   currentStepIndex (goToStep 2 demoState) = 2"
proof -
  have h: "currentRecipe demoState = Some demoRecipe"
    by (simp add: demoState_def setRecipe_def)
  have n: "int (length (steps demoRecipe)) = 3"
    by (simp add: demoRecipe_def)
  show ?thesis
    using goToStep_out_of_range_noop [OF h, of 3] goToStep_out_of_range_noop [OF h, of "- 1"]
      goToStep_out_of_range_noop [OF h, of 2] h n
    by simp
qed

section \<open>Timer\<close>

text \<open>
  Claim C9. \<open>startTimer d\<close> sets \<open>timerSeconds\<close> to \<open>d\<close> and \<open>isTimerRunning\<close> to true;
  \<open>stopTimer\<close> sets \<open>isTimerRunning\<close> to false and keeps \<open>timerSeconds\<close>; every other field
  of the store is unchanged by both.
\<close>

theorem startTimer_stopTimer_frame:
  "timerSeconds (startTimer d s) = d \<and> isTimerRunning (startTimer d s) \<and>
   currentRecipe (startTimer d s) = currentRecipe s \<and>
   isLoading (startTimer d s) = isLoading s \<and>
   error (startTimer d s) = error s \<and>
   currentStepIndex (startTimer d s) = currentStepIndex s \<and>
   mode (startTimer d s) = mode s \<and>
   showExplainability (startTimer d s) = showExplainability s \<and>
   isListening (startTimer d s) = isListening s \<and>
   expertMode (startTimer d s) = expertMode s \<and>
   language (startTimer d s) = language s \<and>
   \<not> isTimerRunning (stopTimer s) \<and> timerSeconds (stopTimer s) = timerSeconds s \<and>
   currentRecipe (stopTimer s) = currentRecipe s \<and>
   isLoading (stopTimer s) = isLoading s \<and>
   error (stopTimer s) = error s \<and>
   currentStepIndex (stopTimer s) = currentStepIndex s \<and>
   mode (stopTimer s) = mode s \<and>
   showExplainability (stopTimer s) = showExplainability s \<and>
   isListening (stopTimer s) = isListening s \<and>
   expertMode (stopTimer s) = expertMode s \<and>
   language (stopTimer s) = language s"
  by (simp add: startTimer_def stopTimer_def)

section \<open>Loading a recipe\<close>

text \<open>
  Claim C4 says that \<open>setRecipe\<close> leaves the timer stopped and listening off for every prior
  state. From a state with a running timer and listening on, both are still on after
  \<open>setRecipe\<close>.
\<close>

theorem setRecipe_keeps_timer_counterexample:
  "isTimerRunning (setRecipe demoRecipe (setListening True (startTimer 60 (initialState en)))) \<and>
   isListening (setRecipe demoRecipe (setListening True (startTimer 60 (initialState en))))"
  by (simp add: setRecipe_def setListening_def startTimer_def)

text \<open>
  Claim C4, amended. \<open>setRecipe\<close> stores the recipe, sets \<open>currentStepIndex\<close> to \<open>0\<close> and
  \<open>error\<close> to null, and leaves \<open>isTimerRunning\<close>, \<open>timerSeconds\<close>, \<open>isListening\<close> and
  every other field as they were.
\<close>

theorem setRecipe_resets_index_only:
  "currentRecipe (setRecipe r s) = Some r \<and> currentStepIndex (setRecipe r s) = 0 \<and>
   error (setRecipe r s) = None \<and>
   isTimerRunning (setRecipe r s) = isTimerRunning s \<and>
   timerSeconds (setRecipe r s) = timerSeconds s \<and>
   isListening (setRecipe r s) = isListening s \<and>
   isLoading (setRecipe r s) = isLoading s \<and>
   mode (setRecipe r s) = mode s \<and>
   showExplainability (setRecipe r s) = showExplainability s \<and>
   expertMode (setRecipe r s) = expertMode s \<and>
   language (setRecipe r s) = language s"
  by (simp add: setRecipe_def)

section \<open>Countdown\<close>

lemma ticks_countdown:
  "isTimerRunning (store w) \<Longrightarrow> timerSeconds (store w) = int n \<Longrightarrow>
   ticks n w = w\<lparr>store := (store w)\<lparr>timerSeconds := 0\<rparr>\<rparr>"
proof (induction n arbitrary: w)
  case 0
  then show ?case by simp
next
  case (Suc n)
  let ?w = "tickTimer w"
  from Suc.prems have tw: "?w = w\<lparr>store := (store w)\<lparr>timerSeconds := int n\<rparr>\<rparr>"
    by (simp add: tickTimer_def Let_def)
  then have "isTimerRunning (store ?w)" "timerSeconds (store ?w) = int n"
    using Suc.prems by simp_all
  then have "ticks n ?w = ?w\<lparr>store := (store ?w)\<lparr>timerSeconds := 0\<rparr>\<rparr>"
    by (rule Suc.IH)
  then show ?case by (simp add: tw)
qed

lemma ticks_add: "ticks (m + n) w = ticks n (ticks m w)"
  by (induction m arbitrary: w) simp_all

lemma ticks_Suc_right: "ticks (Suc n) w = tickTimer (ticks n w)"
  by (induction n arbitrary: w) simp_all

lemma ticks_stopped: "\<not> isTimerRunning (store w) \<Longrightarrow> ticks n w = w"
  by (induction n) (simp_all add: tickTimer_def Let_def)

text \<open>
  Claim C3 expects the timer stopped and one notification after \<open>startTimer d\<close> and \<open>d\<close>
  ticks. In the source the \<open>d\<close> ticks bring the counter to \<open>0\<close> with the timer still running
  and nothing spoken; it is tick \<open>d + 1\<close> that stops the timer and speaks the notification,
  and no later tick changes anything.
\<close>

theorem timer_expires_one_tick_late:
  "isTimerRunning (store (ticks d (timerWorld d s))) \<and>
   timerSeconds (store (ticks d (timerWorld d s))) = 0 \<and>
   spoken (ticks d (timerWorld d s)) = [] \<and>
   \<not> isTimerRunning (store (ticks (Suc d) (timerWorld d s))) \<and>
   spoken (ticks (Suc d) (timerWorld d s)) = [timeUpUtterance] \<and>
   ticks (Suc d + n) (timerWorld d s) = ticks (Suc d) (timerWorld d s)"
proof -
  let ?w = "timerWorld d s"
  have "isTimerRunning (store ?w)" "timerSeconds (store ?w) = int d"
    by (simp_all add: timerWorld_def startTimer_def)
  then have d: "ticks d ?w = ?w\<lparr>store := (store ?w)\<lparr>timerSeconds := 0\<rparr>\<rparr>"
    by (rule ticks_countdown)
  have "ticks (Suc d) ?w = tickTimer (ticks d ?w)"
    by (rule ticks_Suc_right)
  also have "\<dots> = tickTimer (?w\<lparr>store := (store ?w)\<lparr>timerSeconds := 0\<rparr>\<rparr>)"
    by (simp only: d)
  also have "\<dots> = \<lparr>store = (startTimer 0 s)\<lparr>isTimerRunning := False\<rparr>,
      spoken = [timeUpUtterance], speechAvailable = True\<rparr>"
    by (simp add: timerWorld_def startTimer_def tickTimer_def speak_def Let_def)
  finally have e: "ticks (Suc d) ?w = \<lparr>store = (startTimer 0 s)\<lparr>isTimerRunning := False\<rparr>,
      spoken = [timeUpUtterance], speechAvailable = True\<rparr>" .
  have "\<not> isTimerRunning (store (ticks (Suc d) ?w))"
    by (simp only: e) simp
  then have "ticks n (ticks (Suc d) ?w) = ticks (Suc d) ?w"
    by (rule ticks_stopped)
  then have f: "ticks (Suc d + n) ?w = ticks (Suc d) ?w"
    by (simp only: ticks_add)
  have g: "isTimerRunning (store (ticks d ?w)) \<and> timerSeconds (store (ticks d ?w)) = 0 \<and>
      spoken (ticks d ?w) = []"
    by (simp only: d) (simp add: timerWorld_def startTimer_def)
  have h: "\<not> isTimerRunning (store (ticks (Suc d) ?w)) \<and>
      spoken (ticks (Suc d) ?w) = [timeUpUtterance]"
    by (simp only: e) simp
  from f g h show ?thesis by blast
qed

section \<open>Matching a transcript\<close>

lemma matchPatterns_find:
  "matchPatterns lower n c ps = (if list_ex (\<lambda>p. sublist (lower p) n) ps then Some c else None)"
  by (induction ps) simp_all

lemma matchEntries_find:
  "matchEntries lower n tbl =
     map_option fst (find (\<lambda>entry. list_ex (\<lambda>p. sublist (lower p) n) (snd entry)) tbl)"
  by (induction tbl) (auto simp: matchPatterns_find)

lemma trim_decomp:
  "\<exists>a b. list_all isWhiteSpace a \<and> list_all isWhiteSpace b \<and> s = a @ trim s @ b"
proof -
  let ?a = "takeWhile isWhiteSpace s" and ?d = "dropWhile isWhiteSpace s"
  let ?b = "rev (takeWhile isWhiteSpace (rev ?d))"
  have "trim s @ ?b = rev (takeWhile isWhiteSpace (rev ?d) @ dropWhile isWhiteSpace (rev ?d))"
    by (simp only: trim_def rev_append)
  also have "\<dots> = rev (rev ?d)"
    by (simp only: takeWhile_dropWhile_id)
  finally have d: "?d = trim s @ ?b"
    by simp
  have "s = ?a @ ?d" by simp
  with d have "s = ?a @ trim s @ ?b" by simp
  moreover have "list_all isWhiteSpace ?a"
    unfolding list_all_iff using set_takeWhileD by fast
  moreover have "list_all isWhiteSpace ?b"
    unfolding list_all_iff set_rev using set_takeWhileD by fast
  ultimately show ?thesis by blast
qed

lemma last_dropWhile_nonempty: "dropWhile P xs \<noteq> [] \<Longrightarrow> last (dropWhile P xs) = last xs"
proof -
  assume a: "dropWhile P xs \<noteq> []"
  have "last (takeWhile P xs @ dropWhile P xs) = last (dropWhile P xs)"
    using a by (rule last_appendR)
  then show ?thesis by simp
qed

lemma trim_ends:
  "trim s = [] \<or> (\<not> isWhiteSpace (hd (trim s)) \<and> \<not> isWhiteSpace (last (trim s)))"
proof (cases "trim s = []")
  case True
  then show ?thesis by simp
next
  case False
  let ?d = "dropWhile isWhiteSpace s"
  let ?r = "dropWhile isWhiteSpace (rev ?d)"
  from False have r: "?r \<noteq> []" by (simp add: trim_def)
  have d: "?d \<noteq> []"
  proof
    assume e: "?d = []"
    have "?r = []" unfolding e by simp
    with r show False by (rule notE)
  qed
  have "\<not> isWhiteSpace (hd ?r)" using r by (rule hd_dropWhile)
  then have l: "\<not> isWhiteSpace (last (trim s))"
    using r by (simp add: trim_def last_rev)
  have "last ?r = last (rev ?d)" using r by (rule last_dropWhile_nonempty)
  also have "\<dots> = hd ?d" using d by (simp add: last_rev)
  finally have "hd (trim s) = hd ?d" using r by (simp add: trim_def hd_rev)
  moreover have "\<not> isWhiteSpace (hd ?d)" using d by (rule hd_dropWhile)
  ultimately show ?thesis using l by simp
qed

lemma lowerUnit_idem: "lowerUnit (lowerUnit c) = lowerUnit c"
  by (simp add: lowerUnit_def)

lemma isPlain_lowerUnit: "isPlain c \<Longrightarrow> isPlain (lowerUnit c)"
  by (auto simp: isPlain_def lowerUnit_def)

lemmas match_eval =
  matchCommand_def normalized_def COMMAND_PATTERNS_def specTable_def str_def lowerUnit_def
  isPlain_def trim_def isWhiteSpace_def sublist_Cons_right

text \<open>
  Claim C6. \<open>matchCommand\<close> normalizes the transcript, lowercasing it and then trimming
  it, and returns the command of the first entry of the phrase table, in table order, one
  of whose lowercased phrases occurs in the normalized transcript as a substring, and none
  when no phrase occurs: it agrees with the interpreter of the specification on
  \<open>COMMAND_PATTERNS\<close>, as the nested iteration does on any table, whatever \<open>toLowerCase\<close>
  does. It is a function of the transcript alone, with no effect and no error. The
  normalized transcript is the lowercased transcript without the white space at its two
  ends. With \<open>toLowerCase\<close> as it is on plain strings, the case of a plain transcript
  does not matter; on the table of the source and on the example table of the
  specification \<open>please go next\<close> gives next, \<open>go back now\<close> gives previous (the key
  \<open>prev\<close>) and \<open>banana\<close> gives none; where two commands match, the earlier one in the
  table wins; and a phrase that ends in a blank is not found at the end of a transcript,
  whose final blank has been trimmed.
\<close>

theorem matchCommand_first_match_wins:
  assumes plain: "\<And>s. list_all isPlain s \<Longrightarrow> lower s = map lowerUnit s"
  shows "matchCommand lower t = interpret_spec lower COMMAND_PATTERNS t \<and>
    matchEntries lower (normalized lower t) table = interpret_spec lower table t \<and>
    (\<exists>a b. list_all isWhiteSpace a \<and> list_all isWhiteSpace b \<and>
            lower t = a @ normalized lower t @ b) \<and>
    (normalized lower t = [] \<or>
       (\<not> isWhiteSpace (hd (normalized lower t)) \<and> \<not> isWhiteSpace (last (normalized lower t)))) \<and>
    (list_all isPlain t \<longrightarrow> matchCommand lower (map lowerUnit t) = matchCommand lower t) \<and>
    normalized lower (str ''  Start TIMER '') = str ''start timer'' \<and>
    matchCommand lower (str ''please go next'') = Some Next \<and>
    matchCommand lower (str ''go back now'') = Some Prev \<and>
    matchCommand lower (str ''banana'') = None \<and>
    matchCommand lower (str '' Start TIMER '') = Some Timer \<and>
    matchCommand lower (str ''back next'') = Some Next \<and>
    matchCommand lower [0x8ACB, 0x66AB, 0x505C] = Some Stop \<and>
    matchEntries lower (normalized lower (str ''please go next'')) specTable = Some Next \<and>
    matchEntries lower (normalized lower (str ''go back now'')) specTable = Some Prev \<and>
    matchEntries lower (normalized lower (str ''banana'')) specTable = None \<and>
    matchEntries lower (normalized lower (str ''go '')) [(Next, [str ''go ''])] = None"
proof -
  have a: "matchCommand lower t = interpret_spec lower COMMAND_PATTERNS t"
    by (simp add: matchCommand_def normalized_def interpret_spec_def matchEntries_find)
  have b: "matchEntries lower (normalized lower t) table = interpret_spec lower table t"
    by (simp add: normalized_def interpret_spec_def matchEntries_find)
  have c: "\<exists>a b. list_all isWhiteSpace a \<and> list_all isWhiteSpace b \<and>
      lower t = a @ normalized lower t @ b"
    unfolding normalized_def by (rule trim_decomp)
  have d: "normalized lower t = [] \<or>
      (\<not> isWhiteSpace (hd (normalized lower t)) \<and> \<not> isWhiteSpace (last (normalized lower t)))"
    unfolding normalized_def by (rule trim_ends)
  have e: "list_all isPlain t \<longrightarrow> matchCommand lower (map lowerUnit t) = matchCommand lower t"
  proof
    assume p: "list_all isPlain t"
    then have "list_all isPlain (map lowerUnit t)"
      by (simp add: list_all_iff isPlain_lowerUnit)
    then have "lower (map lowerUnit t) = map lowerUnit (map lowerUnit t)"
      by (rule plain)
    also have "\<dots> = map lowerUnit t"
      by (simp add: lowerUnit_idem)
    also have "\<dots> = lower t"
      using p by (simp add: plain)
    finally show "matchCommand lower (map lowerUnit t) = matchCommand lower t"
      by (simp add: matchCommand_def normalized_def)
  qed
  have f: "normalized lower (str ''  Start TIMER '') = str ''start timer''"
    by (simp add: plain match_eval)
  have g: "matchCommand lower (str ''please go next'') = Some Next"
    by (simp add: plain match_eval)
  have h: "matchCommand lower (str ''go back now'') = Some Prev"
    by (simp add: plain match_eval)
  have i: "matchCommand lower (str ''banana'') = None"
    by (simp add: plain match_eval)
  have j: "matchCommand lower (str '' Start TIMER '') = Some Timer"
    by (simp add: plain match_eval)
  have k: "matchCommand lower (str ''back next'') = Some Next"
    by (simp add: plain match_eval)
  have l: "matchCommand lower [0x8ACB, 0x66AB, 0x505C] = Some Stop"
    by (simp add: plain match_eval)
  have m: "matchEntries lower (normalized lower (str ''please go next'')) specTable = Some Next"
    by (simp add: plain match_eval)
  have n: "matchEntries lower (normalized lower (str ''go back now'')) specTable = Some Prev"
    by (simp add: plain match_eval)
  have o: "matchEntries lower (normalized lower (str ''banana'')) specTable = None"
    by (simp add: plain match_eval)
  have p: "matchEntries lower (normalized lower (str ''go '')) [(Next, [str ''go ''])] = None"
    by (simp add: plain match_eval)
  from a b c d e f g h i j k l m n o p show ?thesis
    by (intro conjI)
qed

theorem matchCommand_first_match_wins_witness:
  "matchCommand (map lowerUnit) (str ''please go next'') = Some Next \<and>
   matchCommand (map lowerUnit) (str ''go back now'') = Some Prev \<and>
   matchCommand (map lowerUnit) (str ''banana'') = None \<and>
   normalized (map lowerUnit) (str ''  Start TIMER '') = str ''start timer'' \<and>
   matchCommand (map lowerUnit) (str ''PLEASE GO NEXT'') =
     matchCommand (map lowerUnit) (str ''please go next'')"
proof -
  have p: "\<And>s. list_all isPlain s \<Longrightarrow> map lowerUnit s = map lowerUnit s"
    by simp
  have q: "list_all isPlain (str ''PLEASE GO NEXT'')"
    by (simp add: str_def isPlain_def)
  have r: "map lowerUnit (str ''PLEASE GO NEXT'') = str ''please go next''"
    by (simp add: str_def lowerUnit_def)
  note w = matchCommand_first_match_wins [OF p, of "str ''PLEASE GO NEXT''" "[]"]
  from w q r have "matchCommand (map lowerUnit) (str ''PLEASE GO NEXT'') =
      matchCommand (map lowerUnit) (str ''please go next'')"
    by metis
  with w show ?thesis by blast
qed

section \<open>Voice commands and the timer\<close>

lemma demo_current:
  "currentStep demoState = Some (demoStep 1 (str ''00:10'') (str ''00:20'') (Some 90))"
  by (simp add: currentStep_def demoState_def setRecipe_def demoRecipe_def)

lemma demo_current2:
  "currentStep (nextStep demoState) = Some (demoStep 2 (str ''00:20'') (str ''01:05'') None)"
  by (simp add: currentStep_def nextStep_def demoState_def setRecipe_def demoRecipe_def)

lemma demo_timer_config:
  "has_timer (timer_config (demoStep i a b d))"
  "duration_seconds (timer_config (demoStep i a b d)) = d"
  by (simp_all add: demoStep_def)

lemma demo_not_running:
  "\<not> isTimerRunning demoState" "\<not> isTimerRunning (nextStep demoState)"
  by (simp_all add: nextStep_def demoState_def setRecipe_def initialState_def)

lemma demo_click_start:
  "clickStartTimer demoState = startTimer 90 demoState"
  "clickStartTimer (nextStep demoState) = startTimer 60 (nextStep demoState)"
  by (simp_all add: clickStartTimer_def demo_current demo_current2 demo_timer_config
      demo_not_running durationOrDefault_def)

lemma demo_click_stop:
  "clickStopTimer (startTimer 90 demoState) = stopTimer (startTimer 90 demoState)"
proof -
  have "currentStep (startTimer 90 demoState) = currentStep demoState"
    by (cases "currentRecipe demoState") (simp_all add: currentStep_def startTimer_def)
  then show ?thesis
    by (simp add: clickStopTimer_def demo_current demo_timer_config startTimer_def)
qed

text \<open>
  Claim C2 says that dispatching the voice command \<open>timer\<close> starts the timer with the
  current step's duration (\<open>isTimerRunning\<close> true, the counter at that duration) and that
  dispatching \<open>stop\<close> stops it. In the source, handling either command speaks the
  command's confirmation in the active locale, passes the command to the \<open>onCommand\<close>
  callback when the component was given one, and does nothing else: the store is as it
  was. CookMode renders the component without a callback. So on the first step of the
  demo recipe, whose timer is set to 90 seconds, after the command \<open>timer\<close> the timer is
  not running, the counter is \<open>0\<close> and \<open>Timer\<close> has been spoken; and after the command
  \<open>stop\<close> a running timer is still running. The start button of the timer card does what
  the voice command misses: it starts the timer with the step's duration, 90 on the
  first step and the default 60 on the second, which has none; the stop button stops it.
\<close>

theorem voice_timer_command_only_speaks:
  "handleCommand None Timer w =
     speak \<lparr> utterance_text = feedbackText (language (store w)) Timer,
             utterance_lang = (if language (store w) = hk then str ''zh-HK'' else str ''en-US'') \<rparr> w \<and>
   handleCommand None Stop w =
     speak \<lparr> utterance_text = feedbackText (language (store w)) Stop,
             utterance_lang = (if language (store w) = hk then str ''zh-HK'' else str ''en-US'') \<rparr> w \<and>
   store (handleCommand None Timer w) = store w \<and>
   store (handleCommand None Stop w) = store w \<and>
   handleCommand (Some f) Timer w = f Timer (handleCommand None Timer w) \<and>
   handleCommand (Some f) Stop w = f Stop (handleCommand None Stop w) \<and>
   handleCommand None Timer \<lparr>store = demoState, spoken = [], speechAvailable = True\<rparr> =
     \<lparr>store = demoState,
      spoken = [\<lparr>utterance_text = str ''Timer'', utterance_lang = str ''en-US''\<rparr>],
      speechAvailable = True\<rparr> \<and>
   \<not> isTimerRunning demoState \<and> timerSeconds demoState = 0 \<and>
   handleCommand None Stop
       \<lparr>store = startTimer 90 demoState, spoken = [], speechAvailable = True\<rparr> =
     \<lparr>store = startTimer 90 demoState,
      spoken = [\<lparr>utterance_text = str ''Stop'', utterance_lang = str ''en-US''\<rparr>],
      speechAvailable = True\<rparr> \<and>
   isTimerRunning (startTimer 90 demoState) \<and>
   isTimerRunning (clickStartTimer demoState) \<and>
   timerSeconds (clickStartTimer demoState) = 90 \<and>
   timerSeconds (clickStartTimer (nextStep demoState)) = 60 \<and>
   \<not> isTimerRunning (clickStopTimer (startTimer 90 demoState))"
proof -
  have l: "language demoState = en"
    by (simp add: demoState_def setRecipe_def initialState_def)
  have a: "handleCommand None Timer w =
     speak \<lparr> utterance_text = feedbackText (language (store w)) Timer,
             utterance_lang = (if language (store w) = hk then str ''zh-HK'' else str ''en-US'') \<rparr> w"
    by (simp add: handleCommand_def speakFeedback_def Let_def)
  have b: "handleCommand None Stop w =
     speak \<lparr> utterance_text = feedbackText (language (store w)) Stop,
             utterance_lang = (if language (store w) = hk then str ''zh-HK'' else str ''en-US'') \<rparr> w"
    by (simp add: handleCommand_def speakFeedback_def Let_def)
  have c: "store (handleCommand None Timer w) = store w"
    "store (handleCommand None Stop w) = store w"
    by (simp_all add: handleCommand_def speakFeedback_def speak_def Let_def)
  have d: "handleCommand (Some f) Timer w = f Timer (handleCommand None Timer w)"
    "handleCommand (Some f) Stop w = f Stop (handleCommand None Stop w)"
    by (simp_all add: handleCommand_def Let_def)
  have e: "handleCommand None Timer \<lparr>store = demoState, spoken = [], speechAvailable = True\<rparr> =
     \<lparr>store = demoState,
      spoken = [\<lparr>utterance_text = str ''Timer'', utterance_lang = str ''en-US''\<rparr>],
      speechAvailable = True\<rparr>"
    by (simp add: handleCommand_def speakFeedback_def speak_def Let_def l)
  have f: "\<not> isTimerRunning demoState" "timerSeconds demoState = 0"
    by (simp_all add: demoState_def setRecipe_def initialState_def)
  have l': "language (startTimer 90 demoState) = en"
    by (simp add: startTimer_def l)
  have g: "handleCommand None Stop
       \<lparr>store = startTimer 90 demoState, spoken = [], speechAvailable = True\<rparr> =
     \<lparr>store = startTimer 90 demoState,
      spoken = [\<lparr>utterance_text = str ''Stop'', utterance_lang = str ''en-US''\<rparr>],
      speechAvailable = True\<rparr>"
    by (simp add: handleCommand_def speakFeedback_def speak_def Let_def l')
  have h: "isTimerRunning (startTimer 90 demoState)"
    by (simp add: startTimer_def)
  have i: "isTimerRunning (clickStartTimer demoState)"
    "timerSeconds (clickStartTimer demoState) = 90"
    "timerSeconds (clickStartTimer (nextStep demoState)) = 60"
    by (simp_all add: demo_click_start startTimer_def)
  have j: "\<not> isTimerRunning (clickStopTimer (startTimer 90 demoState))"
    by (simp add: demo_click_stop stopTimer_def)
  from a b c d e f g h i j show ?thesis
    by (intro conjI)
qed

section \<open>Arithmetic on doubles\<close>

lemma bitLength_le: "n < 2 ^ k \<Longrightarrow> bitLength n \<le> k"
proof (induction k arbitrary: n)
  case 0
  then show ?case by (simp add: bitLength.simps [of 0])
next
  case (Suc k)
  show ?case
  proof (cases "n = 0")
    case True
    then show ?thesis by (simp add: bitLength.simps [of 0])
  next
    case False
    from Suc.prems have "n div 2 < 2 ^ k" by simp
    then have "bitLength (n div 2) \<le> k" by (rule Suc.IH)
    with False show ?thesis by (simp add: bitLength.simps [of n])
  qed
qed

lemma bitLength_eq: "2 ^ k \<le> n \<Longrightarrow> n < 2 ^ Suc k \<Longrightarrow> bitLength n = Suc k"
proof (induction k arbitrary: n)
  case 0
  then have "n = Suc 0" by simp
  then show ?case by (simp add: bitLength.simps [of "Suc 0"] bitLength.simps [of 0])
next
  case (Suc k)
  from Suc.prems have "2 ^ k \<le> n div 2" "n div 2 < 2 ^ Suc k" by simp_all
  then have "bitLength (n div 2) = Suc k" by (rule Suc.IH)
  moreover from Suc.prems have "n \<noteq> 0" by auto
  ultimately show ?case by (simp add: bitLength.simps [of n])
qed

lemma roundMagnitude_small: "n \<le> 9007199254740992 \<Longrightarrow> roundMagnitude n = n"
proof (cases "n = 9007199254740992")
  case True
  have "bitLength (9007199254740992::nat) = Suc 53"
    by (rule bitLength_eq) simp_all
  with True show ?thesis by (simp add: roundMagnitude_def Let_def)
next
  case False
  assume "n \<le> 9007199254740992"
  with False have "n < 2 ^ 53" by simp
  then have "bitLength n \<le> 53" by (rule bitLength_le)
  then show ?thesis by (simp add: roundMagnitude_def Let_def)
qed

lemma roundDouble_safe: "safeInteger x \<Longrightarrow> roundDouble x = x"
proof (cases "x < 0")
  case True
  assume "safeInteger x"
  then have "nat (- x) \<le> 9007199254740992" unfolding safeInteger_def by linarith
  then have "roundMagnitude (nat (- x)) = nat (- x)" by (rule roundMagnitude_small)
  with True show ?thesis by (simp add: roundDouble_def)
next
  case False
  assume "safeInteger x"
  then have "nat x \<le> 9007199254740992" unfolding safeInteger_def by linarith
  then have "roundMagnitude (nat x) = nat x" by (rule roundMagnitude_small)
  with False show ?thesis by (simp add: roundDouble_def)
qed

lemma safe_below_limit: "safeInteger x \<Longrightarrow> \<bar>x\<bar> < doubleLimit"
proof -
  assume "safeInteger x"
  then have "\<bar>x\<bar> \<le> 9007199254740992" unfolding safeInteger_def by linarith
  also have "(9007199254740992::int) < doubleLimit" by (simp add: doubleLimit_def)
  finally show ?thesis .
qed

lemma isDouble_safe: "safeInteger x \<Longrightarrow> isDouble x"
  by (simp add: isDouble_def roundDouble_safe safe_below_limit)

lemma toDouble_safe: "safeInteger x \<Longrightarrow> toDouble x = Tracked (Num x)"
  by (simp add: toDouble_def roundDouble_safe safe_below_limit Let_def)

lemma jsmul_safe:
  "safeInteger a \<Longrightarrow> safeInteger b \<Longrightarrow> safeInteger (a * b) \<Longrightarrow>
   jsmul (Num a) (Num b) = Tracked (Num (a * b))"
  by (simp add: isDouble_safe toDouble_safe)

lemma jsadd_safe:
  "safeInteger a \<Longrightarrow> safeInteger b \<Longrightarrow> safeInteger (a + b) \<Longrightarrow>
   jsadd (Num a) (Num b) = Tracked (Num (a + b))"
  by (simp add: isDouble_safe toDouble_safe)

lemma round_past_safe: "toDouble 9007199254740993 = Tracked (Num 9007199254740992)"
proof -
  have "bitLength (9007199254740993::nat) = Suc 53"
    by (rule bitLength_eq) simp_all
  then have "roundMagnitude 9007199254740993 = 9007199254740992"
    by (simp add: roundMagnitude_def Let_def)
  then have "roundDouble 9007199254740993 = 9007199254740992"
    by (simp add: roundDouble_def)
  moreover have "\<bar>9007199254740992::int\<bar> < doubleLimit"
    by (rule safe_below_limit) (simp add: safeInteger_def)
  ultimately show ?thesis by (simp add: toDouble_def Let_def)
qed

section \<open>Parsing timestamps\<close>

lemma splitOn_nonempty: "splitOn sep s \<noteq> []"
  by (induction s) (simp_all split: list.splits)

lemma splitOn_no_sep: "sep \<notin> set s \<Longrightarrow> splitOn sep s = [s]"
  by (induction s) simp_all

lemma splitOn_append: "sep \<notin> set a \<Longrightarrow> splitOn sep (a @ sep # b) = a # splitOn sep b"
  by (induction a) simp_all

lemma length_splitOn: "length (splitOn sep s) = count_list s sep + 1"
  by (induction s) (auto simp: splitOn_nonempty split: list.splits)

lemma decimal_digits: "list_all isDigit (decimal n)"
proof (induction n rule: decimal.induct)
  case (1 n)
  show ?case
  proof (cases "n < 10")
    case True
    then show ?thesis by (simp add: decimal.simps [of n] isDigit_def)
  next
    case False
    have "n mod 10 < 10" by simp
    then have "isDigit (0x30 + n mod 10)" unfolding isDigit_def by linarith
    with False 1 show ?thesis by (simp add: decimal.simps [of n])
  qed
qed

lemma decimal_nonempty: "decimal n \<noteq> []"
  by (simp add: decimal.simps [of n])

lemma field_digits: "list_all isDigit (field k n)"
proof -
  have "list_all isDigit (replicate k 0x30)"
    by (simp add: list_all_iff isDigit_def)
  then show ?thesis
    by (simp add: field_def decimal_digits)
qed

lemma field_nonempty: "field k n \<noteq> []"
  by (simp add: field_def decimal_nonempty)

lemma digit_not_colon: "isDigit c \<Longrightarrow> c \<noteq> colon"
  by (simp add: isDigit_def colon_def)

lemma digit_not_space: "isDigit c \<Longrightarrow> \<not> isWhiteSpace c"
  by (auto simp: isDigit_def isWhiteSpace_def)

lemma colon_notin_field: "colon \<notin> set (field k n)"
  using field_digits [of k n] digit_not_colon by (auto simp: list_all_iff)

lemma trim_no_space: "\<forall>c \<in> set s. \<not> isWhiteSpace c \<Longrightarrow> trim s = s"
proof -
  assume a: "\<forall>c \<in> set s. \<not> isWhiteSpace c"
  have d: "dropWhile isWhiteSpace xs = xs" if "\<forall>c \<in> set xs. \<not> isWhiteSpace c" for xs
    using that by (cases xs) simp_all
  have "dropWhile isWhiteSpace s = s" using a by (rule d)
  moreover have "dropWhile isWhiteSpace (rev s) = rev s" using a by (intro d) simp
  ultimately show ?thesis by (simp add: trim_def)
qed

lemma trim_field: "trim (field k n) = field k n"
  using field_digits [of k n] digit_not_space by (intro trim_no_space) (auto simp: list_all_iff)

lemma digitsValue_snoc: "digitsValue (s @ [c]) = 10 * digitsValue s + (c - 0x30)"
  by (simp add: digitsValue_def)

lemma digitsValue_decimal: "digitsValue (decimal n) = n"
proof (induction n rule: decimal.induct)
  case (1 n)
  show ?case
  proof (cases "n < 10")
    case True
    then show ?thesis by (simp add: decimal.simps [of n] digitsValue_def)
  next
    case False
    with 1 have "digitsValue (decimal (n div 10)) = n div 10" by simp
    with False show ?thesis
      by (simp add: decimal.simps [of n] digitsValue_snoc)
  qed
qed

lemma digitsValue_zeros: "foldl (\<lambda>acc c. 10 * acc + (c - 0x30)) 0 (replicate k (0x30::nat)) = (0::nat)"
  by (induction k) simp_all

lemma digitsValue_field: "digitsValue (field k n) = n"
  using digitsValue_decimal [of n] by (simp add: field_def digitsValue_def digitsValue_zeros)

lemma Number_field:
  "int n \<le> 9007199254740992 \<Longrightarrow> Number (field k n) = Tracked (Num (int n))"
  by (simp add: Number_def trim_field field_nonempty field_digits digitsValue_field
      safeInteger_def)

lemma split2: "splitOn colon (field i m @ [colon] @ field j s) = [field i m, field j s]"
  by (simp add: splitOn_append colon_notin_field splitOn_no_sep)

lemma split3:
  "splitOn colon (field i h @ [colon] @ field j m @ [colon] @ field k s) =
     [field i h, field j m, field k s]"
  by (simp add: splitOn_append colon_notin_field splitOn_no_sep)

lemma parse_two_fields:
  assumes "int m * 60 + int s \<le> 9007199254740992"
  shows "parseTimestamp (field i m @ [colon] @ field j s) = Tracked (Num (int m * 60 + int s))"
proof -
  from assms have b: "int m \<le> 9007199254740992" "int s \<le> 9007199254740992"
    "int m * 60 \<le> 9007199254740992"
    by linarith+
  have n: "Number (field i m) = Tracked (Num (int m))" "Number (field j s) = Tracked (Num (int s))"
    using b by (simp_all add: Number_field)
  have mul: "jsmul (Num (int m)) (Num 60) = Tracked (Num (int m * 60))"
    using b by (intro jsmul_safe) (simp_all add: safeInteger_def)
  have add: "jsadd (Num (int m * 60)) (Num (int s)) = Tracked (Num (int m * 60 + int s))"
    using assms b by (intro jsadd_safe) (simp_all add: safeInteger_def)
  show ?thesis
    by (simp add: parseTimestamp_def split2 n mul add del: append.simps jsmul.simps jsadd.simps)
qed

lemma parse_three_fields:
  assumes "int h * 3600 + int m * 60 + int s \<le> 9007199254740992"
  shows "parseTimestamp (field i h @ [colon] @ field j m @ [colon] @ field k s) =
         Tracked (Num (int h * 3600 + int m * 60 + int s))"
proof -
  from assms have b: "int h \<le> 9007199254740992" "int m \<le> 9007199254740992"
    "int s \<le> 9007199254740992" "int h * 3600 \<le> 9007199254740992"
    "int m * 60 \<le> 9007199254740992" "int h * 3600 + int m * 60 \<le> 9007199254740992"
    by linarith+
  have n: "Number (field i h) = Tracked (Num (int h))" "Number (field j m) = Tracked (Num (int m))"
    "Number (field k s) = Tracked (Num (int s))"
    using b by (simp_all add: Number_field)
  have mul1: "jsmul (Num (int h)) (Num 3600) = Tracked (Num (int h * 3600))"
    using b by (intro jsmul_safe) (simp_all add: safeInteger_def)
  have mul2: "jsmul (Num (int m)) (Num 60) = Tracked (Num (int m * 60))"
    using b by (intro jsmul_safe) (simp_all add: safeInteger_def)
  have add1: "jsadd (Num (int h * 3600)) (Num (int m * 60)) =
      Tracked (Num (int h * 3600 + int m * 60))"
    using b by (intro jsadd_safe) (simp_all add: safeInteger_def)
  have add2: "jsadd (Num (int h * 3600 + int m * 60)) (Num (int s)) =
      Tracked (Num (int h * 3600 + int m * 60 + int s))"
    using assms b by (intro jsadd_safe) (simp_all add: safeInteger_def)
  show ?thesis
    by (simp add: parseTimestamp_def split3 n mul1 mul2 add1 add2
        del: append.simps jsmul.simps jsadd.simps)
qed

lemma decimal_snoc: "0 < n \<Longrightarrow> d < 10 \<Longrightarrow> decimal (10 * n + d) = decimal n @ [0x30 + d]"
  by (subst decimal.simps) simp

lemma decimal_digitsValue:
  "list_all isDigit s \<Longrightarrow> s \<noteq> [] \<Longrightarrow> hd s \<noteq> 0x30 \<Longrightarrow>
   decimal (digitsValue s) = s \<and> 0 < digitsValue s"
proof (induction s rule: rev_induct)
  case Nil
  then show ?case by simp
next
  case (snoc x xs)
  from snoc.prems(1) have x: "0x30 \<le> x" "x \<le> 0x39"
    by (simp_all add: isDigit_def)
  show ?case
  proof (cases "xs = []")
    case True
    with snoc.prems(3) have "x \<noteq> 0x30" by simp
    with x have "0 < x - 0x30" "x - 0x30 < 10" "0x30 + (x - 0x30) = x" by simp_all
    with True show ?thesis
      by (simp add: digitsValue_def decimal.simps [of "x - 0x30"])
  next
    case False
    with snoc.prems have "list_all isDigit xs" "hd xs \<noteq> 0x30" by simp_all
    with False snoc.IH have ih: "decimal (digitsValue xs) = xs" "0 < digitsValue xs"
      by simp_all
    from x have d: "x - 0x30 < 10" "0x30 + (x - 0x30) = x" by simp_all
    have "decimal (10 * digitsValue xs + (x - 0x30)) = decimal (digitsValue xs) @ [0x30 + (x - 0x30)]"
      using ih(2) d(1) by (rule decimal_snoc)
    with ih d show ?thesis
      by (simp add: digitsValue_snoc)
  qed
qed

lemma takeWhile_replicate: "takeWhile (\<lambda>c. c = a) s = replicate (length (takeWhile (\<lambda>c. c = a) s)) a"
  by (induction s) simp_all

lemma digit_string_is_field:
  assumes "list_all isDigit s" and "s \<noteq> []"
  shows "\<exists>k n. s = field k n"
proof -
  let ?z = "takeWhile (\<lambda>c. c = 0x30) s" and ?r = "dropWhile (\<lambda>c. c = 0x30) s"
  have s: "s = replicate (length ?z) 0x30 @ ?r"
    using takeWhile_replicate [of "0x30" s] takeWhile_dropWhile_id [of "\<lambda>c. c = 0x30" s]
    by simp
  show ?thesis
  proof (cases "?r = []")
    case True
    with s assms(2) have "0 < length ?z" by auto
    then obtain k where k: "length ?z = Suc k" by (cases "length ?z") simp_all
    have "replicate (Suc k) (0x30::nat) = replicate k 0x30 @ [0x30]"
      by (simp add: replicate_append_same)
    with s True k have "s = field k 0"
      by (simp add: field_def decimal.simps [of 0])
    then show ?thesis by blast
  next
    case False
    then have "hd ?r \<noteq> 0x30" using hd_dropWhile by blast
    moreover have "list_all isDigit ?r"
      using assms(1) set_dropWhileD unfolding list_all_iff by fast
    ultimately have "decimal (digitsValue ?r) = ?r"
      using False decimal_digitsValue by blast
    with s have "s = field (length ?z) (digitsValue ?r)"
      by (simp add: field_def)
    then show ?thesis by blast
  qed
qed

lemmas ts_eval = parseTimestamp_def secondsOf_def str_def colon_def Number_def trim_def
  isWhiteSpace_def isDigit_def digitsValue_def safeInteger_def Let_def

text \<open>
  Claim C7 says that \<open>MM:SS\<close> gives \<open>M * 60 + S\<close> for all fields. The arithmetic of the
  source is in doubles: for 150119987579016 minutes and 33 seconds the sum
  9007199254740993 is not a double, and the result is 9007199254740992.
\<close>

theorem parseTimestamp_rounds_counterexample:
  "parseTimestamp (str ''150119987579016:33'') = Tracked (Num 9007199254740992) \<and>
   (150119987579016::int) * 60 + 33 = 9007199254740993"
proof -
  have parts: "map Number (splitOn colon (str ''150119987579016:33'')) =
      [Tracked (Num 150119987579016), Tracked (Num 33)]"
    by (simp add: str_def colon_def Number_def trim_def isWhiteSpace_def isDigit_def
        digitsValue_def safeInteger_def Let_def)
  have "jsmul (Num 150119987579016) (Num 60) = Tracked (Num (150119987579016 * 60))"
    by (intro jsmul_safe) (simp_all add: safeInteger_def)
  then have mul: "jsmul (Num 150119987579016) (Num 60) = Tracked (Num 9007199254740960)"
    by (simp del: jsmul.simps)
  have "isDouble 9007199254740960" "isDouble 33"
    by (intro isDouble_safe; simp add: safeInteger_def)+
  then have "jsadd (Num 9007199254740960) (Num 33) = toDouble (9007199254740960 + 33)"
    by simp
  then have add: "jsadd (Num 9007199254740960) (Num 33) = Tracked (Num 9007199254740992)"
    by (simp add: round_past_safe del: jsadd.simps)
  have "parseTimestamp (str ''150119987579016:33'') = Tracked (Num 9007199254740992)"
    by (simp add: parseTimestamp_def parts mul add Let_def del: jsmul.simps jsadd.simps)
  then show ?thesis by simp
qed

text \<open>
  Claim C7, amended. A well-formed field is a non-empty string of decimal digits, which is
  \<open>field k n\<close> for its value \<open>n\<close> and its number \<open>k\<close> of leading zeros
  (\<open>digit_string_is_field\<close>). For all natural numbers in the fields whose total of seconds
  is at most \<open>2 ^ 53\<close>, \<open>parseTimestamp\<close> gives \<open>M * 60 + S\<close> on \<open>MM:SS\<close> and
  \<open>H * 3600 + M * 60 + S\<close> on \<open>HH:MM:SS\<close>; the seconds and minutes need not be below 60.
\<close>

theorem parseTimestamp_fields:
  "(int m * 60 + int s \<le> 9007199254740992 \<longrightarrow>
      parseTimestamp (field i m @ [colon] @ field j s) = Tracked (Num (int m * 60 + int s))) \<and>
   (int h * 3600 + int m * 60 + int s \<le> 9007199254740992 \<longrightarrow>
      parseTimestamp (field i h @ [colon] @ field j m @ [colon] @ field k s) =
        Tracked (Num (int h * 3600 + int m * 60 + int s))) \<and>
   field 1 1 @ [colon] @ field 0 30 = str ''01:30'' \<and>
   parseTimestamp (str ''01:30'') = Tracked (Num 90) \<and>
   parseTimestamp (str ''90:75'') = Tracked (Num 5475) \<and>
   parseTimestamp (str ''1:02:03'') = Tracked (Num 3723)"
proof -
  have c: "field 1 1 @ [colon] @ field 0 30 = str ''01:30''"
    by (simp add: field_def decimal.simps [of "Suc 0"] decimal.simps [of 30]
        decimal.simps [of 3] str_def colon_def)
  have d: "parseTimestamp (str ''01:30'') = Tracked (Num 90)"
    by (simp add: ts_eval jsmul_safe jsadd_safe del: jsmul.simps jsadd.simps)
  have e: "parseTimestamp (str ''90:75'') = Tracked (Num 5475)"
    by (simp add: ts_eval jsmul_safe jsadd_safe del: jsmul.simps jsadd.simps)
  have f: "parseTimestamp (str ''1:02:03'') = Tracked (Num 3723)"
    by (simp add: ts_eval jsmul_safe jsadd_safe del: jsmul.simps jsadd.simps)
  from c d e f show ?thesis
    using parse_two_fields [of m s i j] parse_three_fields [of h m s i j k] by blast
qed

theorem parseTimestamp_fields_witness:
  "int 1 * 60 + int 30 \<le> 9007199254740992 \<and>
   parseTimestamp (field 1 1 @ [colon] @ field 0 30) = Tracked (Num 90) \<and>
   int 1 * 3600 + int 2 * 60 + int 3 \<le> 9007199254740992 \<and>
   parseTimestamp (field 0 1 @ [colon] @ field 1 2 @ [colon] @ field 1 3) = Tracked (Num 3723)"
proof -
  have a: "int 1 * 60 + int 30 \<le> 9007199254740992"
    by simp
  have b: "int 1 * 3600 + int 2 * 60 + int 3 \<le> 9007199254740992"
    by simp
  have "parseTimestamp (field 1 1 @ [colon] @ field 0 30) = Tracked (Num (int 1 * 60 + int 30))"
    using parseTimestamp_fields [of 1 30 1 0 1 1] a by blast
  then have c: "parseTimestamp (field 1 1 @ [colon] @ field 0 30) = Tracked (Num 90)"
    by simp
  have "parseTimestamp (field 0 1 @ [colon] @ field 1 2 @ [colon] @ field 1 3) =
      Tracked (Num (int 1 * 3600 + int 2 * 60 + int 3))"
    using parseTimestamp_fields [of 2 3 0 1 1 1] b by blast
  then have d: "parseTimestamp (field 0 1 @ [colon] @ field 1 2 @ [colon] @ field 1 3) =
      Tracked (Num 3723)"
    by simp
  from a b c d show ?thesis by blast
qed

text \<open>
  Claim C10 says that a malformed start timestamp, parsed as \<open>0\<close>, disables looping. With
  the start \<open>90\<close>, which has one part, and the end \<open>00:20\<close>, the polling still seeks, to
  \<open>0\<close>, at every report at or past 20.
\<close>

theorem malformed_start_still_polls_counterexample:
  "secondsOf (Some (str ''90'')) = Tracked (Num 0) \<and>
   secondsOf (Some (str ''00:20'')) = Tracked (Num 20) \<and>
   loopMonitor True (Num 0) (Num 20) True [Time (Num 19), Time (Num 20), Time (Num 25)] =
     [[], [SeekTo (Num 0)], [SeekTo (Num 0)]]"
  by (simp add: ts_eval jsmul_safe jsadd_safe loopMonitor_def del: jsmul.simps jsadd.simps)

text \<open>
  Claim C10, amended. When the split of a timestamp at its colons has neither two nor
  three parts, \<open>parseTimestamp\<close> returns \<open>0\<close> and raises nothing, so the controller has
  \<open>0\<close> for that time. As a start, \<open>0\<close> makes the handler of the ended event issue no seek
  and no play, since the handler seeks back only for a start above \<open>0\<close>. As an end, \<open>0\<close>
  keeps the polling from issuing anything. With such a start and an end other than \<open>0\<close>
  the polling goes on: every poll whose report is at or past the end seeks to \<open>0\<close>.
\<close>

theorem parseTimestamp_malformed_zero:
  assumes "length (splitOn colon ts) \<noteq> 2" and "length (splitOn colon ts) \<noteq> 3"
  shows "parseTimestamp ts = Tracked (Num 0) \<and> secondsOf (Some ts) = Tracked (Num 0) \<and>
         map_tracked (\<lambda>a. onStateChange autoLoop a hasPlayer ENDED) (secondsOf (Some ts)) =
           Tracked [] \<and>
         map_tracked (\<lambda>z. loopMonitor autoLoop startSeconds z hasPlayer samples)
             (secondsOf (Some ts)) =
           Tracked (map (\<lambda>_. []) samples) \<and>
         (e \<noteq> 0 \<longrightarrow>
            map_tracked (\<lambda>a. loopMonitor True a (Num e) True (map (\<lambda>r. Time (Num r)) rs))
                (secondsOf (Some ts)) =
              Tracked (map (\<lambda>r. if e \<le> r then [SeekTo (Num 0)] else []) rs))"
proof -
  have p: "parseTimestamp ts = Tracked (Num 0)"
    using assms by (simp add: parseTimestamp_def)
  then have s: "secondsOf (Some ts) = Tracked (Num 0)"
    by (simp add: secondsOf_def)
  show ?thesis
    by (simp add: p s onStateChange_def loopMonitor_def)
qed

theorem parseTimestamp_malformed_zero_witness:
  "length (splitOn colon (str ''90'')) = 1 \<and> parseTimestamp (str ''90'') = Tracked (Num 0) \<and>
   length (splitOn colon (str '''')) = 1 \<and> parseTimestamp (str '''') = Tracked (Num 0) \<and>
   length (splitOn colon (str ''1:2:3:4'')) = 4 \<and>
   parseTimestamp (str ''1:2:3:4'') = Tracked (Num 0) \<and>
   map_tracked (\<lambda>a. onStateChange True a True ENDED) (secondsOf (Some (str ''90''))) =
     Tracked [] \<and>
   map_tracked (\<lambda>z. loopMonitor True (Num 10) z True [Time (Num 99)])
       (secondsOf (Some (str ''1:2:3:4''))) = Tracked [[]] \<and>
   map_tracked (\<lambda>a. loopMonitor True a (Num 20) True (map (\<lambda>r. Time (Num r)) [19, 20, 25]))
       (secondsOf (Some (str ''90''))) = Tracked [[], [SeekTo (Num 0)], [SeekTo (Num 0)]]"
proof -
  have a: "length (splitOn colon (str ''90'')) = 1"
    by (simp add: str_def colon_def)
  have b: "length (splitOn colon (str '''')) = 1"
    by (simp add: str_def colon_def)
  have c: "length (splitOn colon (str ''1:2:3:4'')) = 4"
    by (simp add: str_def colon_def)
  have a': "length (splitOn colon (str ''90'')) \<noteq> 2" "length (splitOn colon (str ''90'')) \<noteq> 3"
    using a by simp_all
  have b': "length (splitOn colon (str '''')) \<noteq> 2" "length (splitOn colon (str '''')) \<noteq> 3"
    using b by simp_all
  have c': "length (splitOn colon (str ''1:2:3:4'')) \<noteq> 2"
    "length (splitOn colon (str ''1:2:3:4'')) \<noteq> 3"
    using c by simp_all
  have n: "(20::int) \<noteq> 0"
    by simp
  have m: "map (\<lambda>r. if (20::int) \<le> r then [SeekTo (Num 0)] else []) [19, 20, 25] =
      [[], [SeekTo (Num 0)], [SeekTo (Num 0)]]"
    by simp
  have w1: "parseTimestamp (str ''90'') = Tracked (Num 0) \<and>
      map_tracked (\<lambda>a. onStateChange True a True ENDED) (secondsOf (Some (str ''90''))) =
        Tracked [] \<and>
      map_tracked (\<lambda>a. loopMonitor True a (Num 20) True (map (\<lambda>r. Time (Num r)) [19, 20, 25]))
        (secondsOf (Some (str ''90''))) =
        Tracked (map (\<lambda>r. if (20::int) \<le> r then [SeekTo (Num 0)] else []) [19, 20, 25])"
    using parseTimestamp_malformed_zero [OF a', of True True "Num 10" "[]" 20 "[19, 20, 25]"] n
    by blast
  have w2: "parseTimestamp (str '''') = Tracked (Num 0)"
    using parseTimestamp_malformed_zero [OF b', of True True "Num 10" "[]" 20 "[]"] by blast
  have "parseTimestamp (str ''1:2:3:4'') = Tracked (Num 0) \<and>
      map_tracked (\<lambda>z. loopMonitor True (Num 10) z True [Time (Num 99)])
        (secondsOf (Some (str ''1:2:3:4''))) = Tracked (map (\<lambda>_. []) [Time (Num 99)])"
    using parseTimestamp_malformed_zero [OF c', of True True "Num 10" "[Time (Num 99)]" 20 "[]"]
    by blast
  then have w3: "parseTimestamp (str ''1:2:3:4'') = Tracked (Num 0) \<and>
      map_tracked (\<lambda>z. loopMonitor True (Num 10) z True [Time (Num 99)])
        (secondsOf (Some (str ''1:2:3:4''))) = Tracked [[]]"
    by simp
  from a b c w1 w2 w3 show ?thesis
    unfolding m by blast
qed

section \<open>Loop polling\<close>

text \<open>
  Claim C5 says that for the window \<open>[10, 20]\<close> and the position reports 5, 12, 19, 20, 21
  one seek is issued. The polls issue two: the poll that reads 21 seeks to 10 as well.
\<close>

theorem loop_poll_counterexample:
  "length (concat (loopMonitor True (Num 10) (Num 20) True
      (map (\<lambda>r. Time (Num r)) [5, 12, 19, 20, 21]))) = 2 \<and>
   loopMonitor True (Num 10) (Num 20) True (map (\<lambda>r. Time (Num r)) [5, 12, 19, 20, 21]) ! 4
     = [SeekTo (Num 10)]"
  by (simp add: loopMonitor_def)

text \<open>
  Claim C5, amended. With looping on, a player present and an end time other than \<open>0\<close>,
  every poll whose report is at or past the end issues one seek to the start, and a poll
  whose report is below the end issues nothing. For the window \<open>[10, 20]\<close> and the reports
  5, 12, 19, 20, 21 that is a seek to 10 at the report of 20, the first at or past the end,
  and another at the report of 21.
\<close>

theorem loop_poll_seeks_at_each_report_past_end:
  assumes "e \<noteq> 0"
  shows "loopMonitor True (Num b) (Num e) True (map (\<lambda>r. Time (Num r)) rs) =
         map (\<lambda>r. if e \<le> r then [SeekTo (Num b)] else []) rs"
  using assms by (simp add: loopMonitor_def)

theorem loop_poll_seeks_at_each_report_past_end_witness:
  "(20::int) \<noteq> 0 \<and>
   loopMonitor True (Num 10) (Num 20) True (map (\<lambda>r. Time (Num r)) [5, 12, 19, 20, 21]) =
     [[], [], [], [SeekTo (Num 10)], [SeekTo (Num 10)]]"
proof -
  have h: "(20::int) \<noteq> 0" by simp
  show ?thesis
    using loop_poll_seeks_at_each_report_past_end [OF h, of 10 "[5, 12, 19, 20, 21]"] by simp
qed

end
